theory Spec2Isabelle
  imports Complex_Main "HOL-Library.Char_ord" "HOL-Library.List_Lexorder"
begin

section \<open>Data model of src/App.tsx\<close>

text \<open>
  The source file holds two variants of the same component. Where the two variants differ,
  the first variant (lines 1-332) keeps the source's name and the second variant
  (lines 333-612) carries the suffix \<open>2\<close>.

  Item names are modelled as \<open>string\<close>; the order on strings is the lexicographic order
  on character codes, which is how JavaScript's default \<open>sort()\<close> compares strings.
\<close>

record MindMapNode =
  name :: string
  children :: "string list option"

record MindMapData =
  name :: string
  children :: "MindMapNode list"

definition mindmapData :: MindMapData where
  "mindmapData = \<lparr>
     MindMapData.name = ''ITOM Market'',
     MindMapData.children = [
       \<lparr>MindMapNode.name = ''Technologies'',
        MindMapNode.children = Some [''Cloud Management'', ''AIOps'', ''Automation'',
          ''Network Monitoring'', ''APM'', ''ITSM'', ''Infrastructure Monitoring'',
          ''Log Analytics'']\<rparr>,
       \<lparr>MindMapNode.name = ''Market Trends'',
        MindMapNode.children = Some [''Digital Transformation'', ''Multi-Cloud Adoption'',
          ''Edge Computing'', ''DevOps Integration'', ''Containerization'', ''Cybersecurity'']\<rparr>,
       \<lparr>MindMapNode.name = ''Key Players'',
        MindMapNode.children = Some [''ServiceNow'', ''BMC'', ''IBM'', ''Splunk'', ''Datadog'',
          ''Dynatrace'', ''New Relic'', ''Microsoft'']\<rparr>,
       \<lparr>MindMapNode.name = ''Challenges'',
        MindMapNode.children = Some [''Skill Gap'', ''Integration Complexity'', ''Data Privacy'',
          ''Legacy Systems'']\<rparr>,
       \<lparr>MindMapNode.name = ''Benefits'',
        MindMapNode.children = Some [''Efficiency'', ''Cost Reduction'', ''User Experience'',
          ''Fast Resolution'', ''Proactive Prevention'']\<rparr>,
       \<lparr>MindMapNode.name = ''Industry Verticals'',
        MindMapNode.children = Some [''Finance'', ''Healthcare'', ''Retail'', ''Manufacturing'',
          ''Telecom'', ''Government'']\<rparr>,
       \<lparr>MindMapNode.name = ''Future Outlook'',
        MindMapNode.children = Some [''Predictive Analytics'', ''Autonomous Ops'']\<rparr>
     ]\<rparr>"

text \<open>
  The module \<open>./summaries\<close> is imported by the source but is not part of it, so the table
  is a parameter of every function that reads it. A table is the list of the object's
  own entries (key, text) in the order in which \<open>Object.keys\<close> enumerates them;
  \<open>summaries[key]\<close> is \<open>map_of tbl key\<close>, with \<open>None\<close> for \<open>undefined\<close>.
\<close>

type_synonym summaries = "(string \<times> string) list"

definition Object_keys :: "summaries \<Rightarrow> string list" where
  "Object_keys tbl = map fst tbl"

text \<open>The three pieces of component state (\<open>useState\<close>) of \<open>ITOMInteractiveMindMap\<close>.\<close>

record state =
  selectedItems :: "string list"
  summary :: string
  activeTab :: nat

definition initial :: state where
  "initial = \<lparr>selectedItems = [], summary = [], activeTab = 0\<rparr>"

datatype error = TypeError

section \<open>String helpers\<close>

text \<open>\<open>k.split(',')\<close>: the pieces between commas; the empty string gives one empty piece.\<close>

fun split_comma :: "string \<Rightarrow> string list" where
  "split_comma [] = ['''']"
| "split_comma (c # cs) =
     (if c = CHR '','' then [] # split_comma cs
      else (case split_comma cs of
              p # ps \<Rightarrow> (c # p) # ps
            | [] \<Rightarrow> [c] # []))"

text \<open>\<open>xs.join(',')\<close>.\<close>

fun join_comma :: "string list \<Rightarrow> string" where
  "join_comma [] = []"
| "join_comma [x] = x"
| "join_comma (x # y # ys) = x @ CHR '','' # join_comma (y # ys)"

section \<open>The selection transition\<close>

text \<open>
  \<open>handleNodeSelect\<close>, first variant (lines 223-250). The updater computes
  \<open>newSelection\<close> and calls \<open>setSummary\<close> on the way; the last call made wins, and the
  summary is kept when no call is made. The partner is matched by searching the keys for
  one whose comma-split pieces include both names. A key returned by \<open>find\<close> is an own
  key of the table, so \<open>summaries[key]\<close> is defined there (lemma \<open>find_key_defined\<close>).
\<close>

definition handleNodeSelect :: "summaries \<Rightarrow> string \<Rightarrow> state \<Rightarrow> state" where
  "handleNodeSelect tbl item st =
     (let prev = selectedItems st;
          (newSelection, st1) =
            (if item \<in> set prev then (filter (\<lambda>i. i \<noteq> item) prev, st)
             else if length prev = 0 then ([item], st)
             else if length prev = 1 then
               (case List.find (\<lambda>k. prev ! 0 \<in> set (split_comma k) \<and> item \<in> set (split_comma k))
                       (Object_keys tbl) of
                  Some key \<Rightarrow>
                    if key \<noteq> [] then
                      ([prev ! 0, item],
                       st\<lparr>summary := (case map_of tbl key of Some text \<Rightarrow> text | None \<Rightarrow> [])\<rparr>)
                    else (prev, st)
                | None \<Rightarrow> (prev, st))
             else ([item], st));
          st2 = (if length newSelection \<noteq> 2 then st1\<lparr>summary := []\<rparr> else st1)
      in st2\<lparr>selectedItems := newSelection\<rparr>)"

text \<open>
  \<open>handleNodeSelect\<close>, second variant (lines 509-534). The partner is matched by looking
  up the key made of the two names, sorted and joined by a comma; the pair is taken when
  the stored text is truthy, that is, defined and not the empty string.
\<close>

definition handleNodeSelect2 :: "summaries \<Rightarrow> string \<Rightarrow> state \<Rightarrow> state" where
  "handleNodeSelect2 tbl item st =
     (let prev = selectedItems st;
          (newSelection, st1) =
            (if item \<in> set prev then (filter (\<lambda>i. i \<noteq> item) prev, st)
             else if length prev = 0 then ([item], st)
             else if length prev = 1 then
               (let key = join_comma (sort [prev ! 0, item]) in
                case map_of tbl key of
                  Some text \<Rightarrow>
                    if text \<noteq> [] then ([prev ! 0, item], st\<lparr>summary := text\<rparr>)
                    else (prev, st)
                | None \<Rightarrow> (prev, st))
             else ([item], st));
          st2 = (if length newSelection \<noteq> 2 then st1\<lparr>summary := []\<rparr> else st1)
      in st2\<lparr>selectedItems := newSelection\<rparr>)"

text \<open>\<open>handleReset\<close> (lines 252-256 and 536-540, the same in both variants).\<close>

definition handleReset :: "state \<Rightarrow> state" where
  "handleReset st = st\<lparr>selectedItems := [], summary := [], activeTab := 0\<rparr>"

text \<open>A finite sequence of \<open>selectItem\<close> calls, applied from left to right.\<close>

definition selectItems :: "summaries \<Rightarrow> string list \<Rightarrow> state \<Rightarrow> state" where
  "selectItems tbl items st = foldl (\<lambda>s item. handleNodeSelect tbl item s) st items"

definition selectItems2 :: "summaries \<Rightarrow> string list \<Rightarrow> state \<Rightarrow> state" where
  "selectItems2 tbl items st = foldl (\<lambda>s item. handleNodeSelect2 tbl item s) st items"

text \<open>
  The user's actions on the selection state: a click that reaches \<open>handleNodeSelect\<close>
  and the Reset button. Each action is processed to completion before the next one.
\<close>

datatype action = SelectItem string | Reset

fun perform :: "summaries \<Rightarrow> state \<Rightarrow> action \<Rightarrow> state" where
  "perform tbl st (SelectItem item) = handleNodeSelect tbl item st"
| "perform tbl st Reset = handleReset st"

fun perform2 :: "summaries \<Rightarrow> state \<Rightarrow> action \<Rightarrow> state" where
  "perform2 tbl st (SelectItem item) = handleNodeSelect2 tbl item st"
| "perform2 tbl st Reset = handleReset st"

text \<open>The state reached from the initial state by a sequence of actions.\<close>

definition run :: "summaries \<Rightarrow> action list \<Rightarrow> state" where
  "run tbl acts = foldl (perform tbl) initial acts"

definition run2 :: "summaries \<Rightarrow> action list \<Rightarrow> state" where
  "run2 tbl acts = foldl (perform2 tbl) initial acts"

section \<open>Derived views\<close>

text \<open>
  \<open>availableNodes\<close> of \<open>ForceGraph\<close>, first variant (lines 72-82). \<open>data.children!\<close>
  is \<open>undefined\<close> (\<open>None\<close>) for a node without children: the first branch then
  returns \<open>undefined\<close>, and the second branch raises a TypeError as soon as the filter
  reaches \<open>data.children!.includes\<close>, which the short-circuit \<open>&&\<close> does for the first
  item that differs from the selected one.
\<close>

definition availableNodes :: "summaries \<Rightarrow> MindMapNode \<Rightarrow> string list \<Rightarrow> error + string list option" where
  "availableNodes tbl data selected =
     (if length selected = 0 then Inr (MindMapNode.children data)
      else if length selected = 1 then
        (let items = concat (map split_comma
               (filter (\<lambda>key. list_ex (\<lambda>item. item = selected ! 0) (split_comma key))
                  (Object_keys tbl)))
         in case MindMapNode.children data of
              Some cs \<Rightarrow> Inr (Some (filter (\<lambda>item. item \<noteq> selected ! 0 \<and> item \<in> set cs) items))
            | None \<Rightarrow>
                if list_ex (\<lambda>item. item \<noteq> selected ! 0) items then Inl TypeError
                else Inr (Some []))
      else Inr (Some []))"

text \<open>Second variant (lines 401-411): \<open>includes\<close> in place of \<open>some\<close>.\<close>

definition availableNodes2 :: "summaries \<Rightarrow> MindMapNode \<Rightarrow> string list \<Rightarrow> error + string list option" where
  "availableNodes2 tbl data selected =
     (if length selected = 0 then Inr (MindMapNode.children data)
      else if length selected = 1 then
        (let items = concat (map split_comma
               (filter (\<lambda>key. selected ! 0 \<in> set (split_comma key)) (Object_keys tbl)))
         in case MindMapNode.children data of
              Some cs \<Rightarrow> Inr (Some (filter (\<lambda>item. item \<noteq> selected ! 0 \<and> item \<in> set cs) items))
            | None \<Rightarrow>
                if list_ex (\<lambda>item. item \<noteq> selected ! 0) items then Inl TypeError
                else Inr (Some []))
      else Inr (Some []))"

text \<open>
  \<open>availableTabs\<close> (lines 207-221, first variant only; the second variant renders a tab
  for every category of \<open>mindmapData\<close>, whatever the selection). \<open>filter\<close> calls its
  predicate on every category, so \<open>category.children!.some\<close> raises a TypeError when
  some category has no children.
\<close>

definition availableTabs :: "summaries \<Rightarrow> string list \<Rightarrow> error + MindMapNode list" where
  "availableTabs tbl selected =
     (if length selected = 0 then Inr (MindMapData.children mindmapData)
      else if length selected = 1 then
        (let availableItems = filter (\<lambda>item. item \<noteq> selected ! 0)
               (concat (map split_comma
                  (filter (\<lambda>key. list_ex (\<lambda>item. item = selected ! 0) (split_comma key))
                     (Object_keys tbl))))
         in if list_all (\<lambda>category. MindMapNode.children category \<noteq> None)
                 (MindMapData.children mindmapData)
            then Inr (filter
                   (\<lambda>category. case MindMapNode.children category of
                        Some cs \<Rightarrow> list_ex (\<lambda>item. item \<in> set availableItems) cs
                      | None \<Rightarrow> False)
                   (MindMapData.children mindmapData))
            else Inl TypeError)
      else Inr [])"

text \<open>
  The tab list of the second variant (lines 549-563 and 565-578): the JSX maps over
  \<open>mindmapData.children\<close> itself, so it does not depend on the selection.
\<close>

definition renderedTabs2 :: "string list \<Rightarrow> MindMapNode list" where
  "renderedTabs2 selected = MindMapData.children mindmapData"

text \<open>
  The array \<open>nodes\<close> of the rendering effect of \<open>ForceGraph\<close>, first variant
  (lines 97-109). \<open>availableNodes\<close> is computed during the render, before the effect, so
  its TypeError comes first. The effect returns early, building no array (\<open>None\<close>), when
  \<open>svgRef.current\<close> is null (\<open>None\<close>), when \<open>dimensions.width\<close> is 0 or
  when two items are selected; the prop \<open>data\<close> is always an object, so \<open>!data\<close> is
  false. Otherwise the array is the hub \<open>data\<close> followed by one childless node per
  available leaf; \<open>availableNodes.map\<close> raises a TypeError on \<open>undefined\<close>.
\<close>

definition nodes ::
  "summaries \<Rightarrow> MindMapNode \<Rightarrow> string list \<Rightarrow> 'svg option \<Rightarrow> real
     \<Rightarrow> error + MindMapNode list option"
where
  "nodes tbl data selected svgRef_current width =
     (case availableNodes tbl data selected of
        Inl e \<Rightarrow> Inl e
      | Inr available \<Rightarrow>
          if svgRef_current = None \<or> width = 0 \<or> length selected = 2 then Inr None
          else (case available of
                  None \<Rightarrow> Inl TypeError
                | Some leaves \<Rightarrow>
                    Inr (Some (data #
                      map (\<lambda>child. \<lparr>MindMapNode.name = child, MindMapNode.children = None\<rparr>)
                        leaves))))"

text \<open>
  Second variant (lines 413-428): the effect returns early only when \<open>svgRef.current\<close>
  is null; the canvas has a fixed size.
\<close>

definition nodes2 ::
  "summaries \<Rightarrow> MindMapNode \<Rightarrow> string list \<Rightarrow> 'svg option
     \<Rightarrow> error + MindMapNode list option"
where
  "nodes2 tbl data selected svgRef_current =
     (case availableNodes2 tbl data selected of
        Inl e \<Rightarrow> Inl e
      | Inr available \<Rightarrow>
          if svgRef_current = None then Inr None
          else (case available of
                  None \<Rightarrow> Inl TypeError
                | Some leaves \<Rightarrow>
                    Inr (Some (data #
                      map (\<lambda>child. \<lparr>MindMapNode.name = child, MindMapNode.children = None\<rparr>)
                        leaves))))"

text \<open>
  The click handler attached to the circle of every drawn node (lines 141 and 462):
  \<open>(event, d) => onNodeSelect(d.name)\<close>.
\<close>

definition click :: "(string \<Rightarrow> state \<Rightarrow> state) \<Rightarrow> MindMapNode \<Rightarrow> state \<Rightarrow> state" where
  "click onNodeSelect d st = onNodeSelect (MindMapNode.name d) st"

section \<open>The pairing table\<close>

text \<open>
  Modelled from the spec: the module \<open>./summaries\<close> is missing from the sources. Section 3
  of the specification gives the invariant of its keys: every key decomposes into exactly
  two distinct item names, sorted lexically and joined by a comma.
\<close>

definition canonical_keys :: "summaries \<Rightarrow> bool" where
  "canonical_keys tbl =
     (\<forall>k \<in> set (Object_keys tbl). case split_comma k of [p, q] \<Rightarrow> p < q | _ \<Rightarrow> False)"

text \<open>
  Modelled from the spec: the entry of the unordered pair \<open>{a, b}\<close> is the text stored
  under the canonical key of the pair (section 3: lookups canonicalize the order first).
\<close>

definition pairing_entry :: "summaries \<Rightarrow> string \<Rightarrow> string \<Rightarrow> string option" where
  "pairing_entry tbl a b = map_of tbl (join_comma (sort [a, b]))"

text \<open>
  No stored text is the empty string. The second variant of \<open>handleNodeSelect\<close> tests
  the stored text for truthiness, so it treats an empty text like a missing key.
\<close>

definition nonempty_texts :: "summaries \<Rightarrow> bool" where
  "nonempty_texts tbl = (\<forall>text \<in> set (map snd tbl). text \<noteq> [])"

text \<open>
  The summary shown agrees with the selection: with two selected items it is the entry of
  that pair, and otherwise it is empty.
\<close>

definition summary_consistent :: "summaries \<Rightarrow> state \<Rightarrow> bool" where
  "summary_consistent tbl st =
     (case selectedItems st of
        [a, b] \<Rightarrow> pairing_entry tbl a b = Some (summary st)
      | _ \<Rightarrow> summary st = [])"

text \<open>Two small tables used to evaluate the functions on concrete inputs.\<close>

definition example_summaries :: summaries where
  "example_summaries = [(''AIOps,ServiceNow'', ''text'')]"

definition blank_text_summaries :: summaries where
  "blank_text_summaries = [(''AIOps,ServiceNow'', [])]"

section \<open>Splitting and joining\<close>

lemma split_comma_not_Nil: "split_comma k \<noteq> []"
  by (induction k) (auto split: list.splits)

lemma split_comma_append:
  "split_comma (u @ CHR '','' # v) = split_comma u @ split_comma v"
proof (induction u)
  case Nil
  show ?case by simp
next
  case (Cons c u)
  then show ?case
    using split_comma_not_Nil [of u] by (auto split: list.splits)
qed

lemma join_split_comma: "join_comma (split_comma k) = k"
proof (induction k)
  case Nil
  show ?case by simp
next
  case (Cons c k)
  show ?case
  proof (cases "split_comma k")
    case Nil
    then show ?thesis using split_comma_not_Nil by blast
  next
    case (Cons p ps)
    with Cons.IH show ?thesis
      by (cases ps) auto
  qed
qed

lemma split_comma_single: "split_comma u = [p] \<Longrightarrow> p = u"
  using join_split_comma [of u] by simp

lemma split_comma_pair: "split_comma k = [p, q] \<Longrightarrow> k = p @ CHR '','' # q"
  using join_split_comma [of k] by simp

lemma split_join_pair:
  assumes "split_comma (u @ CHR '','' # v) = [p, q]"
  shows "p = u \<and> q = v"
proof -
  from assms have eq: "split_comma u @ split_comma v = [p, q]"
    by (simp add: split_comma_append)
  obtain x xs where u: "split_comma u = x # xs"
    using split_comma_not_Nil [of u] by (cases "split_comma u") auto
  obtain y ys where v: "split_comma v = y # ys"
    using split_comma_not_Nil [of v] by (cases "split_comma v") auto
  from eq u v have "xs = []" "ys = []" "x = p" "y = q"
    by (cases xs; simp)+
  with u v show ?thesis
    by (simp add: split_comma_single)
qed

lemma sort_pair: "sort [a, b :: string] = (if a \<le> b then [a, b] else [b, a])"
  by auto

lemma canonical_key_commute: "join_comma (sort [a, b :: string]) = join_comma (sort [b, a])"
  by (auto simp: sort_pair)

lemma canonical_key_not_Nil: "join_comma (sort [a, b :: string]) \<noteq> []"
  by (simp add: sort_pair)

section \<open>Keys of a canonical table\<close>

lemma in_keys_iff: "k \<in> set (Object_keys tbl) \<longleftrightarrow> map_of tbl k \<noteq> None"
  by (simp add: Object_keys_def map_of_eq_None_iff)

lemma canonical_keysD:
  "canonical_keys tbl \<Longrightarrow> k \<in> set (Object_keys tbl) \<Longrightarrow> \<exists>p q. split_comma k = [p, q] \<and> p < q"
  unfolding canonical_keys_def
  by (fastforce split: list.splits)

lemma key_of_pieces:
  assumes "canonical_keys tbl" "k \<in> set (Object_keys tbl)"
    and "a \<in> set (split_comma k)" "b \<in> set (split_comma k)" "a \<noteq> b"
  shows "k = join_comma (sort [a, b])"
proof -
  from canonical_keysD [OF assms(1,2)] obtain p q
    where pq: "split_comma k = [p, q]" "p < q" by blast
  from pq assms(3-5) have "(a = p \<and> b = q) \<or> (a = q \<and> b = p)" by auto
  with pq(2) have "sort [a, b] = [p, q]" by (auto simp: sort_pair)
  with split_comma_pair [OF pq(1)] show ?thesis by simp
qed

lemma pieces_of_key:
  assumes "canonical_keys tbl" "join_comma (sort [a, b]) \<in> set (Object_keys tbl)"
  shows "a \<noteq> b \<and> a \<in> set (split_comma (join_comma (sort [a, b])))
       \<and> b \<in> set (split_comma (join_comma (sort [a, b])))"
proof -
  let ?k = "join_comma (sort [a, b])"
  from canonical_keysD [OF assms] obtain p q
    where pq: "split_comma ?k = [p, q]" "p < q" by blast
  show ?thesis
  proof (cases "a \<le> b")
    case True
    then have "?k = a @ CHR '','' # b" by (simp add: sort_pair)
    with pq(1) have "p = a \<and> q = b" using split_join_pair by metis
    with pq show ?thesis by auto
  next
    case False
    then have "?k = b @ CHR '','' # a" by (simp add: sort_pair)
    with pq(1) have "p = b \<and> q = a" using split_join_pair by metis
    with pq show ?thesis by auto
  qed
qed

lemma find_key_canonical:
  assumes "canonical_keys tbl" "a \<noteq> b"
  shows "List.find (\<lambda>k. a \<in> set (split_comma k) \<and> b \<in> set (split_comma k)) (Object_keys tbl)
         = (if pairing_entry tbl a b = None then None else Some (join_comma (sort [a, b])))"
proof (cases "pairing_entry tbl a b = None")
  case True
  then have "join_comma (sort [a, b]) \<notin> set (Object_keys tbl)"
    by (simp add: in_keys_iff pairing_entry_def)
  with key_of_pieces [OF assms(1) _ _ _ assms(2)]
  have "\<not> (\<exists>k. k \<in> set (Object_keys tbl) \<and> a \<in> set (split_comma k) \<and> b \<in> set (split_comma k))"
    by blast
  with True show ?thesis by (simp add: find_None_iff)
next
  case False
  then have mem: "join_comma (sort [a, b]) \<in> set (Object_keys tbl)"
    by (simp add: in_keys_iff pairing_entry_def)
  from pieces_of_key [OF assms(1) mem]
  have "\<exists>k. k \<in> set (Object_keys tbl) \<and> a \<in> set (split_comma k) \<and> b \<in> set (split_comma k)"
    using mem by blast
  then obtain k where k: "List.find (\<lambda>k. a \<in> set (split_comma k) \<and> b \<in> set (split_comma k)) (Object_keys tbl) = Some k"
    by (cases "List.find (\<lambda>k. a \<in> set (split_comma k) \<and> b \<in> set (split_comma k)) (Object_keys tbl)")
       (auto simp: find_None_iff)
  then have "k \<in> set (Object_keys tbl) \<and> a \<in> set (split_comma k) \<and> b \<in> set (split_comma k)"
    by (auto simp: find_Some_iff)
  with key_of_pieces [OF assms(1) _ _ _ assms(2)] have "k = join_comma (sort [a, b])" by blast
  with k False show ?thesis by simp
qed

lemma entry_distinct:
  "canonical_keys tbl \<Longrightarrow> pairing_entry tbl a b = Some found \<Longrightarrow> a \<noteq> b"
  using pieces_of_key [of tbl a b] by (simp add: pairing_entry_def in_keys_iff)

lemma pairing_entry_commute: "pairing_entry tbl a b = pairing_entry tbl b a"
  using canonical_key_commute [of a b] by (simp add: pairing_entry_def)

lemma partner_iff:
  assumes "canonical_keys tbl"
  shows "(x \<noteq> a \<and> (\<exists>k \<in> set (Object_keys tbl). a \<in> set (split_comma k) \<and> x \<in> set (split_comma k)))
         \<longleftrightarrow> pairing_entry tbl a x \<noteq> None"
proof
  assume l: "x \<noteq> a \<and> (\<exists>k \<in> set (Object_keys tbl). a \<in> set (split_comma k) \<and> x \<in> set (split_comma k))"
  then obtain k where k: "k \<in> set (Object_keys tbl)" "a \<in> set (split_comma k)" "x \<in> set (split_comma k)"
    by blast
  from l have "a \<noteq> x" by auto
  from key_of_pieces [OF assms k this] k(1) show "pairing_entry tbl a x \<noteq> None"
    by (simp add: pairing_entry_def in_keys_iff)
next
  assume "pairing_entry tbl a x \<noteq> None"
  then have mem: "join_comma (sort [a, x]) \<in> set (Object_keys tbl)"
    by (simp add: pairing_entry_def in_keys_iff)
  from pieces_of_key [OF assms mem] mem
  show "x \<noteq> a \<and> (\<exists>k \<in> set (Object_keys tbl). a \<in> set (split_comma k) \<and> x \<in> set (split_comma k))"
    by blast
qed

lemma nonempty_textsD:
  "nonempty_texts tbl \<Longrightarrow> map_of tbl k = Some found \<Longrightarrow> found \<noteq> []"
  unfolding nonempty_texts_def
  by (metis map_of_SomeD set_zip_rightD zip_map_fst_snd)

lemma example_canonical: "canonical_keys example_summaries"
  by (simp add: canonical_keys_def example_summaries_def Object_keys_def)

lemma blank_text_canonical: "canonical_keys blank_text_summaries"
  by (simp add: canonical_keys_def blank_text_summaries_def Object_keys_def)

lemma example_entry: "pairing_entry example_summaries ''AIOps'' ''ServiceNow'' = Some ''text''"
  by (simp add: pairing_entry_def example_summaries_def)

section \<open>Single steps of the transition\<close>

lemma find_key_defined:
  "List.find P (Object_keys tbl) = Some key \<Longrightarrow> map_of tbl key \<noteq> None"
  by (auto simp: Object_keys_def find_Some_iff map_of_eq_None_iff)

lemma length_filter_member:
  "item \<in> set prev \<Longrightarrow> length (filter (\<lambda>i. i \<noteq> item) prev) < length prev"
  by (induction prev) (auto simp: less_Suc_eq_le)

lemma handleNodeSelect_length:
  "length (selectedItems st) \<le> 2 \<Longrightarrow> length (selectedItems (handleNodeSelect tbl item st)) \<le> 2"
  using length_filter_member [of item "selectedItems st"]
  by (auto simp: handleNodeSelect_def Let_def split: option.splits)

lemma handleNodeSelect2_length:
  "length (selectedItems st) \<le> 2 \<Longrightarrow> length (selectedItems (handleNodeSelect2 tbl item st)) \<le> 2"
  using length_filter_member [of item "selectedItems st"]
  by (auto simp: handleNodeSelect2_def Let_def split: option.splits)

lemma selectItems_length:
  "length (selectedItems st) \<le> 2 \<Longrightarrow> length (selectedItems (selectItems tbl items st)) \<le> 2"
  unfolding selectItems_def
  by (induction items arbitrary: st) (simp_all add: handleNodeSelect_length)

lemma selectItems2_length:
  "length (selectedItems st) \<le> 2 \<Longrightarrow> length (selectedItems (selectItems2 tbl items st)) \<le> 2"
  unfolding selectItems2_def
  by (induction items arbitrary: st) (simp_all add: handleNodeSelect2_length)

lemma handleNodeSelect_empty:
  "selectedItems st = [] \<Longrightarrow> handleNodeSelect tbl a st = st\<lparr>selectedItems := [a], summary := []\<rparr>"
  by (simp add: handleNodeSelect_def)

lemma handleNodeSelect2_empty:
  "selectedItems st = [] \<Longrightarrow> handleNodeSelect2 tbl a st = st\<lparr>selectedItems := [a], summary := []\<rparr>"
  by (simp add: handleNodeSelect2_def)

lemma handleNodeSelect_member:
  assumes "item \<in> set (selectedItems st)" "length (selectedItems st) \<le> 2"
  shows "handleNodeSelect tbl item st =
           st\<lparr>selectedItems := filter (\<lambda>i. i \<noteq> item) (selectedItems st), summary := []\<rparr>"
  using assms length_filter_member [OF assms(1)]
  by (simp add: handleNodeSelect_def)

lemma handleNodeSelect2_member:
  assumes "item \<in> set (selectedItems st)" "length (selectedItems st) \<le> 2"
  shows "handleNodeSelect2 tbl item st =
           st\<lparr>selectedItems := filter (\<lambda>i. i \<noteq> item) (selectedItems st), summary := []\<rparr>"
  using assms length_filter_member [OF assms(1)]
  by (simp add: handleNodeSelect2_def)

lemma handleNodeSelect_two:
  assumes "selectedItems st = [p, q]" "item \<noteq> p" "item \<noteq> q"
  shows "handleNodeSelect tbl item st = st\<lparr>selectedItems := [item], summary := []\<rparr>"
  using assms by (simp add: handleNodeSelect_def)

lemma handleNodeSelect2_two:
  assumes "selectedItems st = [p, q]" "item \<noteq> p" "item \<noteq> q"
  shows "handleNodeSelect2 tbl item st = st\<lparr>selectedItems := [item], summary := []\<rparr>"
  using assms by (simp add: handleNodeSelect2_def)

text \<open>First variant: a key holding both names is enough for the pair to be taken.\<close>

lemma handleNodeSelect_accepts:
  assumes "selectedItems st = [a]" "b \<noteq> a"
    and "k \<in> set (Object_keys tbl)" "a \<in> set (split_comma k)" "b \<in> set (split_comma k)"
  shows "\<exists>text. handleNodeSelect tbl b st = st\<lparr>selectedItems := [a, b], summary := text\<rparr>"
proof -
  let ?P = "\<lambda>k. a \<in> set (split_comma k) \<and> b \<in> set (split_comma k)"
  from assms(3-5) have "List.find ?P (Object_keys tbl) \<noteq> None"
    by (auto simp: find_None_iff)
  then obtain k' where k': "List.find ?P (Object_keys tbl) = Some k'" by blast
  then have "?P k'" by (auto simp: find_Some_iff)
  with assms(2) have "k' \<noteq> []" by auto
  with k' assms(1,2) have "handleNodeSelect tbl b st
      = st\<lparr>selectedItems := [a, b],
           summary := (case map_of tbl k' of Some text \<Rightarrow> text | None \<Rightarrow> [])\<rparr>"
    by (simp add: handleNodeSelect_def)
  then show ?thesis by blast
qed

text \<open>One step from a one-item selection, over a table with canonical keys.\<close>

lemma handleNodeSelect_one:
  assumes "canonical_keys tbl" "selectedItems st = [a]" "b \<noteq> a"
  shows "handleNodeSelect tbl b st =
           (case pairing_entry tbl a b of
              Some text \<Rightarrow> st\<lparr>selectedItems := [a, b], summary := text\<rparr>
            | None \<Rightarrow> st\<lparr>selectedItems := [a], summary := []\<rparr>)"
proof -
  from assms(3) have ab: "a \<noteq> b" by simp
  show ?thesis
    using assms(2,3) canonical_key_not_Nil [of a b]
    by (auto simp: handleNodeSelect_def Let_def find_key_canonical [OF assms(1) ab]
          pairing_entry_def split: option.splits)
qed

lemma handleNodeSelect2_one:
  assumes "selectedItems st = [a]" "b \<noteq> a"
  shows "handleNodeSelect2 tbl b st =
           (case pairing_entry tbl a b of
              Some text \<Rightarrow>
                if text \<noteq> [] then st\<lparr>selectedItems := [a, b], summary := text\<rparr>
                else st\<lparr>selectedItems := [a], summary := []\<rparr>
            | None \<Rightarrow> st\<lparr>selectedItems := [a], summary := []\<rparr>)"
  using assms
  by (auto simp: handleNodeSelect2_def Let_def pairing_entry_def split: option.splits)

lemma handleNodeSelect_other:
  assumes "\<not> (length (selectedItems st) = 1 \<and> item \<notin> set (selectedItems st))"
  shows "handleNodeSelect tbl item st = handleNodeSelect2 tbl item st"
  using assms by (auto simp: handleNodeSelect_def handleNodeSelect2_def Let_def)

lemma handleNodeSelect_agree:
  assumes "canonical_keys tbl" "nonempty_texts tbl"
  shows "handleNodeSelect tbl item st = handleNodeSelect2 tbl item st"
proof (cases "length (selectedItems st) = 1 \<and> item \<notin> set (selectedItems st)")
  case True
  then obtain a where a: "selectedItems st = [a]" "item \<noteq> a"
    by (cases "selectedItems st") auto
  show ?thesis
  proof (cases "pairing_entry tbl a item")
    case None
    then show ?thesis
      by (simp add: handleNodeSelect_one [OF assms(1) a] handleNodeSelect2_one [OF a])
  next
    case (Some found)
    then have "found \<noteq> []"
      using nonempty_textsD [OF assms(2)] by (simp add: pairing_entry_def)
    with Some show ?thesis
      by (simp add: handleNodeSelect_one [OF assms(1) a] handleNodeSelect2_one [OF a])
  qed
next
  case False
  then show ?thesis by (rule handleNodeSelect_other)
qed

section \<open>Short runs from the empty selection\<close>

lemma select_pair:
  assumes "canonical_keys tbl" "selectedItems st = []" "a \<noteq> b"
  shows "selectItems tbl [a, b] st =
           (case pairing_entry tbl a b of
              Some found \<Rightarrow> st\<lparr>selectedItems := [a, b], summary := found\<rparr>
            | None \<Rightarrow> st\<lparr>selectedItems := [a], summary := []\<rparr>)"
proof -
  let ?s1 = "st\<lparr>selectedItems := [a], summary := []\<rparr>"
  have s1: "handleNodeSelect tbl a st = ?s1"
    using assms(2) by (rule handleNodeSelect_empty)
  have "handleNodeSelect tbl b ?s1 =
          (case pairing_entry tbl a b of
             Some found \<Rightarrow> ?s1\<lparr>selectedItems := [a, b], summary := found\<rparr>
           | None \<Rightarrow> ?s1\<lparr>selectedItems := [a], summary := []\<rparr>)"
    using assms(3) by (intro handleNodeSelect_one [OF assms(1)]) simp_all
  with s1 show ?thesis
    by (simp add: selectItems_def split: option.splits)
qed

lemma select2_pair:
  assumes "selectedItems st = []" "a \<noteq> b"
  shows "selectItems2 tbl [a, b] st =
           (case pairing_entry tbl a b of
              Some found \<Rightarrow>
                if found \<noteq> [] then st\<lparr>selectedItems := [a, b], summary := found\<rparr>
                else st\<lparr>selectedItems := [a], summary := []\<rparr>
            | None \<Rightarrow> st\<lparr>selectedItems := [a], summary := []\<rparr>)"
proof -
  let ?s1 = "st\<lparr>selectedItems := [a], summary := []\<rparr>"
  have s1: "handleNodeSelect2 tbl a st = ?s1"
    using assms(1) by (rule handleNodeSelect2_empty)
  have "handleNodeSelect2 tbl b ?s1 =
          (case pairing_entry tbl a b of
             Some found \<Rightarrow>
               if found \<noteq> [] then ?s1\<lparr>selectedItems := [a, b], summary := found\<rparr>
               else ?s1\<lparr>selectedItems := [a], summary := []\<rparr>
           | None \<Rightarrow> ?s1\<lparr>selectedItems := [a], summary := []\<rparr>)"
    using assms(2) by (intro handleNodeSelect2_one) simp_all
  with s1 show ?thesis
    by (simp add: selectItems2_def split: option.splits)
qed

lemma select_three:
  assumes "selectedItems st = []" "b \<noteq> a"
    and "k \<in> set (Object_keys tbl)" "a \<in> set (split_comma k)" "b \<in> set (split_comma k)"
  shows "selectItems tbl [a, b, a] st = st\<lparr>selectedItems := [b], summary := []\<rparr>"
proof -
  let ?s1 = "st\<lparr>selectedItems := [a], summary := []\<rparr>"
  have s1: "handleNodeSelect tbl a st = ?s1"
    using assms(1) by (rule handleNodeSelect_empty)
  have "selectedItems ?s1 = [a]" by simp
  from handleNodeSelect_accepts [OF this assms(2-5)] obtain found
    where s2: "handleNodeSelect tbl b ?s1 = ?s1\<lparr>selectedItems := [a, b], summary := found\<rparr>"
    by blast
  let ?s2 = "?s1\<lparr>selectedItems := [a, b], summary := found\<rparr>"
  have "handleNodeSelect tbl a ?s2
        = ?s2\<lparr>selectedItems := filter (\<lambda>i. i \<noteq> a) (selectedItems ?s2), summary := []\<rparr>"
    by (rule handleNodeSelect_member) simp_all
  with assms(2) have "handleNodeSelect tbl a ?s2 = st\<lparr>selectedItems := [b], summary := []\<rparr>"
    by simp
  with s1 s2 show ?thesis by (simp add: selectItems_def)
qed

lemma select2_three:
  assumes "selectedItems st = []" "b \<noteq> a" "pairing_entry tbl a b = Some found" "found \<noteq> []"
  shows "selectItems2 tbl [a, b, a] st = st\<lparr>selectedItems := [b], summary := []\<rparr>"
proof -
  from assms(2) have ab: "a \<noteq> b" by simp
  let ?s2 = "st\<lparr>selectedItems := [a, b], summary := found\<rparr>"
  have s2: "selectItems2 tbl [a, b] st = ?s2"
    using select2_pair [OF assms(1) ab, of tbl] assms(3,4) by simp
  have "handleNodeSelect2 tbl a ?s2
        = ?s2\<lparr>selectedItems := filter (\<lambda>i. i \<noteq> a) (selectedItems ?s2), summary := []\<rparr>"
    by (rule handleNodeSelect2_member) simp_all
  with assms(2) have "handleNodeSelect2 tbl a ?s2 = st\<lparr>selectedItems := [b], summary := []\<rparr>"
    by simp
  with s2 show ?thesis by (simp add: selectItems2_def)
qed

section \<open>The summary invariant\<close>

lemma summary_consistent_select:
  assumes "canonical_keys tbl" "length (selectedItems st) \<le> 2" "summary_consistent tbl st"
  shows "summary_consistent tbl (handleNodeSelect tbl item st)"
proof (cases "item \<in> set (selectedItems st)")
  case True
  from length_filter_member [OF True] assms(2)
  have "length (filter (\<lambda>i. i \<noteq> item) (selectedItems st)) < 2" by simp
  then show ?thesis
    by (auto simp: handleNodeSelect_member [OF True assms(2)] summary_consistent_def
          split: list.splits)
next
  case False
  show ?thesis
  proof (cases "selectedItems st")
    case Nil
    then show ?thesis
      by (simp add: handleNodeSelect_empty summary_consistent_def)
  next
    case (Cons a rest)
    show ?thesis
    proof (cases rest)
      case Nil
      with Cons False have a: "selectedItems st = [a]" "item \<noteq> a" by auto
      show ?thesis
        by (simp add: handleNodeSelect_one [OF assms(1) a] summary_consistent_def
              split: option.splits)
    next
      case (Cons b more)
      with \<open>selectedItems st = a # rest\<close> assms(2) False
      have "selectedItems st = [a, b]" "item \<noteq> a" "item \<noteq> b" by auto
      then show ?thesis
        by (simp add: handleNodeSelect_two summary_consistent_def)
    qed
  qed
qed

lemma summary_consistent_select2:
  assumes "length (selectedItems st) \<le> 2" "summary_consistent tbl st"
  shows "summary_consistent tbl (handleNodeSelect2 tbl item st)"
proof (cases "item \<in> set (selectedItems st)")
  case True
  from length_filter_member [OF True] assms(1)
  have "length (filter (\<lambda>i. i \<noteq> item) (selectedItems st)) < 2" by simp
  then show ?thesis
    by (auto simp: handleNodeSelect2_member [OF True assms(1)] summary_consistent_def
          split: list.splits)
next
  case False
  show ?thesis
  proof (cases "selectedItems st")
    case Nil
    then show ?thesis
      by (simp add: handleNodeSelect2_empty summary_consistent_def)
  next
    case (Cons a rest)
    show ?thesis
    proof (cases rest)
      case Nil
      with Cons False have a: "selectedItems st = [a]" "item \<noteq> a" by auto
      show ?thesis
        by (simp add: handleNodeSelect2_one [OF a] summary_consistent_def
              split: option.splits)
    next
      case (Cons b more)
      with \<open>selectedItems st = a # rest\<close> assms(1) False
      have "selectedItems st = [a, b]" "item \<noteq> a" "item \<noteq> b" by auto
      then show ?thesis
        by (simp add: handleNodeSelect2_two summary_consistent_def)
    qed
  qed
qed

lemma handleReset_consistent:
  "length (selectedItems (handleReset st)) \<le> 2 \<and> summary_consistent tbl (handleReset st)"
  by (simp add: handleReset_def summary_consistent_def)

lemma run_invariant:
  assumes "canonical_keys tbl"
  shows "length (selectedItems (run tbl acts)) \<le> 2 \<and> summary_consistent tbl (run tbl acts)"
proof (induction acts rule: rev_induct)
  case Nil
  show ?case by (simp add: run_def initial_def summary_consistent_def)
next
  case (snoc act acts)
  then show ?case
    using handleReset_consistent [of "run tbl acts" tbl]
    by (cases act)
       (simp_all add: run_def handleNodeSelect_length summary_consistent_select [OF assms])
qed

lemma run2_invariant:
  "length (selectedItems (run2 tbl acts)) \<le> 2 \<and> summary_consistent tbl (run2 tbl acts)"
proof (induction acts rule: rev_induct)
  case Nil
  show ?case by (simp add: run2_def initial_def summary_consistent_def)
next
  case (snoc act acts)
  then show ?case
    using handleReset_consistent [of "run2 tbl acts" tbl]
    by (cases act)
       (simp_all add: run2_def handleNodeSelect2_length summary_consistent_select2)
qed

lemma summary_consistentD:
  assumes "summary_consistent tbl st" "summary st \<noteq> []"
  shows "\<exists>a b. selectedItems st = [a, b] \<and> pairing_entry tbl a b = Some (summary st)"
  using assms by (auto simp: summary_consistent_def split: list.splits)

section \<open>The derived views and the table\<close>

lemma availableNodes2_eq: "availableNodes2 tbl data selected = availableNodes tbl data selected"
  by (simp add: availableNodes2_def availableNodes_def list_ex_iff)

lemma availableItems_iff:
  "x \<in> set (filter (\<lambda>item. item \<noteq> a)
        (concat (map split_comma
           (filter (\<lambda>key. list_ex (\<lambda>item. item = a) (split_comma key)) (Object_keys tbl)))))
   \<longleftrightarrow> x \<noteq> a \<and> (\<exists>k \<in> set (Object_keys tbl). a \<in> set (split_comma k) \<and> x \<in> set (split_comma k))"
  by (auto simp: list_ex_iff)

lemma availableNodes_member:
  assumes "availableNodes tbl data [a] = Inr (Some xs)" "x \<in> set xs"
  shows "x \<noteq> a \<and> (\<exists>k \<in> set (Object_keys tbl). a \<in> set (split_comma k) \<and> x \<in> set (split_comma k))"
  using assms
  by (auto simp: availableNodes_def Let_def list_ex_iff split: option.splits if_splits)

lemma categories_have_children:
  "list_all (\<lambda>category. MindMapNode.children category \<noteq> None) (MindMapData.children mindmapData)"
  by (simp add: mindmapData_def)

section \<open>Claims\<close>

text \<open>
  C1, as amended. Starting from the empty selection, with the pairing table storing a
  non-empty text under the key \<open>AIOps,ServiceNow\<close>, the calls \<open>selectItem("AIOps")\<close>,
  \<open>selectItem("ServiceNow")\<close>, \<open>selectItem("AIOps")\<close> end with the selection
  \<open>["ServiceNow"]\<close> and the empty summary, in both variants: the third click, on an
  item that is already selected, removes that item and keeps the other one.
\<close>

theorem third_click_deselects:
  assumes "map_of tbl ''AIOps,ServiceNow'' = Some found" "found \<noteq> []" "selectedItems st = []"
  shows "selectItems tbl [''AIOps'', ''ServiceNow'', ''AIOps''] st
           = st\<lparr>selectedItems := [''ServiceNow''], summary := []\<rparr>
       \<and> selectItems2 tbl [''AIOps'', ''ServiceNow'', ''AIOps''] st
           = st\<lparr>selectedItems := [''ServiceNow''], summary := []\<rparr>"
proof -
  have key: "''AIOps,ServiceNow'' \<in> set (Object_keys tbl)"
    using assms(1) by (simp add: in_keys_iff)
  have ne: "''ServiceNow'' \<noteq> ''AIOps''" by simp
  have entry: "pairing_entry tbl ''AIOps'' ''ServiceNow'' = Some found"
    using assms(1) by (simp add: pairing_entry_def)
  have "selectItems tbl [''AIOps'', ''ServiceNow'', ''AIOps''] st
          = st\<lparr>selectedItems := [''ServiceNow''], summary := []\<rparr>"
    by (rule select_three [OF assms(3) ne key]) simp_all
  moreover have "selectItems2 tbl [''AIOps'', ''ServiceNow'', ''AIOps''] st
          = st\<lparr>selectedItems := [''ServiceNow''], summary := []\<rparr>"
    by (rule select2_three [OF assms(3) ne entry assms(2)])
  ultimately show ?thesis by simp
qed

text \<open>
  C1, witness: the table of the specification's example, which stores \<open>text\<close> under
  \<open>AIOps,ServiceNow\<close>, and the initial state.
\<close>

theorem third_click_deselects_witness:
  "map_of example_summaries ''AIOps,ServiceNow'' = Some ''text'' \<and> selectedItems initial = []
   \<and> selectItems example_summaries [''AIOps'', ''ServiceNow'', ''AIOps''] initial
       = \<lparr>selectedItems = [''ServiceNow''], summary = [], activeTab = 0\<rparr>
   \<and> selectItems2 example_summaries [''AIOps'', ''ServiceNow'', ''AIOps''] initial
       = \<lparr>selectedItems = [''ServiceNow''], summary = [], activeTab = 0\<rparr>"
proof -
  have h1: "map_of example_summaries ''AIOps,ServiceNow'' = Some ''text''"
    by (simp add: example_summaries_def)
  have h2: "''text'' \<noteq> []" by simp
  have h3: "selectedItems initial = []" by (simp add: initial_def)
  from third_click_deselects [OF h1 h2 h3] h1 h3 show ?thesis by (simp add: initial_def)
qed

text \<open>
  C1, counterexample to the claim as stated: on that table the three calls do not end
  with the selection \<open>["AIOps"]\<close>, in either variant.
\<close>

theorem third_click_counterexample:
  "selectedItems (selectItems example_summaries [''AIOps'', ''ServiceNow'', ''AIOps''] initial)
     = [''ServiceNow'']
   \<and> selectedItems (selectItems example_summaries [''AIOps'', ''ServiceNow'', ''AIOps''] initial)
     \<noteq> [''AIOps'']
   \<and> selectedItems (selectItems2 example_summaries [''AIOps'', ''ServiceNow'', ''AIOps''] initial)
     = [''ServiceNow'']
   \<and> selectedItems (selectItems2 example_summaries [''AIOps'', ''ServiceNow'', ''AIOps''] initial)
     \<noteq> [''AIOps'']"
  by (simp add: selectItems_def selectItems2_def handleNodeSelect_def handleNodeSelect2_def
        example_summaries_def Object_keys_def initial_def)

text \<open>
  C2, as amended. Over a table with canonical keys, for every pair \<open>(a, b)\<close> whose entry
  is a non-empty text, starting from the empty selection: \<open>selectItem(a); selectItem(b)\<close>
  ends with the selection \<open>[a, b]\<close> and \<open>selectItem(b); selectItem(a)\<close> with \<open>[b, a]\<close>,
  the same two items in the order of the clicks, and both end with the same summary, the
  text of the entry. This holds in both variants.
\<close>

theorem pairing_symmetry:
  assumes "canonical_keys tbl" "pairing_entry tbl a b = Some found" "found \<noteq> []"
    and "selectedItems st = []"
  shows "selectItems tbl [a, b] st = st\<lparr>selectedItems := [a, b], summary := found\<rparr>
       \<and> selectItems tbl [b, a] st = st\<lparr>selectedItems := [b, a], summary := found\<rparr>
       \<and> selectItems2 tbl [a, b] st = st\<lparr>selectedItems := [a, b], summary := found\<rparr>
       \<and> selectItems2 tbl [b, a] st = st\<lparr>selectedItems := [b, a], summary := found\<rparr>"
proof -
  from entry_distinct [OF assms(1,2)] have ab: "a \<noteq> b" .
  then have ba: "b \<noteq> a" by simp
  from assms(2) have e: "pairing_entry tbl b a = Some found"
    by (simp add: pairing_entry_commute)
  show ?thesis
    using select_pair [OF assms(1,4) ab] select_pair [OF assms(1,4) ba]
      select2_pair [OF assms(4) ab, of tbl] select2_pair [OF assms(4) ba, of tbl] assms(2,3) e
    by simp
qed

text \<open>C2, witness: the pair AIOps, ServiceNow on the example table.\<close>

theorem pairing_symmetry_witness:
  "canonical_keys example_summaries \<and> pairing_entry example_summaries ''AIOps'' ''ServiceNow'' = Some ''text''
   \<and> selectItems example_summaries [''AIOps'', ''ServiceNow''] initial
       = \<lparr>selectedItems = [''AIOps'', ''ServiceNow''], summary = ''text'', activeTab = 0\<rparr>
   \<and> selectItems example_summaries [''ServiceNow'', ''AIOps''] initial
       = \<lparr>selectedItems = [''ServiceNow'', ''AIOps''], summary = ''text'', activeTab = 0\<rparr>
   \<and> selectItems2 example_summaries [''AIOps'', ''ServiceNow''] initial
       = \<lparr>selectedItems = [''AIOps'', ''ServiceNow''], summary = ''text'', activeTab = 0\<rparr>
   \<and> selectItems2 example_summaries [''ServiceNow'', ''AIOps''] initial
       = \<lparr>selectedItems = [''ServiceNow'', ''AIOps''], summary = ''text'', activeTab = 0\<rparr>"
proof -
  have h3: "''text'' \<noteq> []" by simp
  have h4: "selectedItems initial = []" by (simp add: initial_def)
  from pairing_symmetry [OF example_canonical example_entry h3 h4] example_canonical example_entry
  show ?thesis by (simp add: initial_def)
qed

text \<open>
  C2, counterexample to the claim as stated: the two orders of clicking give different
  selection sequences.
\<close>

theorem selection_order_counterexample:
  "selectedItems (selectItems example_summaries [''AIOps'', ''ServiceNow''] initial)
     = [''AIOps'', ''ServiceNow'']
   \<and> selectedItems (selectItems example_summaries [''ServiceNow'', ''AIOps''] initial)
     = [''ServiceNow'', ''AIOps'']
   \<and> selectedItems (selectItems example_summaries [''AIOps'', ''ServiceNow''] initial)
     \<noteq> selectedItems (selectItems example_summaries [''ServiceNow'', ''AIOps''] initial)
   \<and> selectedItems (selectItems2 example_summaries [''AIOps'', ''ServiceNow''] initial)
     \<noteq> selectedItems (selectItems2 example_summaries [''ServiceNow'', ''AIOps''] initial)"
  by (simp add: selectItems_def selectItems2_def handleNodeSelect_def handleNodeSelect2_def
        example_summaries_def Object_keys_def initial_def)

text \<open>
  C3. From every starting state whose selection has at most two entries, and for every
  finite sequence of \<open>selectItem\<close> calls with arbitrary item names, the selection has at
  most two entries afterwards, in both variants. Every prefix of a sequence of calls is
  itself a sequence of calls, so the bound holds at every point of a run.
\<close>

theorem selection_bound:
  assumes "length (selectedItems st) \<le> 2"
  shows "length (selectedItems (selectItems tbl items st)) \<le> 2
       \<and> length (selectedItems (selectItems2 tbl items st)) \<le> 2"
  using assms by (simp add: selectItems_length selectItems2_length)

text \<open>C3, witness: three calls from the initial state.\<close>

theorem selection_bound_witness:
  "length (selectedItems initial) \<le> 2
   \<and> length (selectedItems (selectItems [(''AIOps,ServiceNow'', ''text'')]
        [''AIOps'', ''ServiceNow'', ''BMC''] initial)) \<le> 2
   \<and> length (selectedItems (selectItems2 [(''AIOps,ServiceNow'', ''text'')]
        [''AIOps'', ''ServiceNow'', ''BMC''] initial)) \<le> 2"
  using selection_bound [of initial "[(''AIOps,ServiceNow'', ''text'')]"
      "[''AIOps'', ''ServiceNow'', ''BMC'']"]
  by (simp add: initial_def)

text \<open>
  C4. Over a table with canonical keys, for every pair of two different items \<open>a\<close> and
  \<open>b\<close> without an entry, starting from the empty selection, \<open>selectItem(a)\<close> followed by
  \<open>selectItem(b)\<close> leaves the selection \<open>[a]\<close> and the empty summary; the second call
  returns the state it was given, so it changes nothing, and the transition has no error
  result. This holds in both variants.
\<close>

theorem invalid_pair_rejected:
  assumes "canonical_keys tbl" "a \<noteq> b" "pairing_entry tbl a b = None" "selectedItems st = []"
  shows "selectItems tbl [a, b] st = st\<lparr>selectedItems := [a], summary := []\<rparr>
       \<and> selectItems tbl [a, b] st = selectItems tbl [a] st
       \<and> selectItems2 tbl [a, b] st = st\<lparr>selectedItems := [a], summary := []\<rparr>
       \<and> selectItems2 tbl [a, b] st = selectItems2 tbl [a] st"
proof -
  have "selectItems tbl [a] st = st\<lparr>selectedItems := [a], summary := []\<rparr>"
    using handleNodeSelect_empty [OF assms(4)] by (simp add: selectItems_def)
  moreover have "selectItems2 tbl [a] st = st\<lparr>selectedItems := [a], summary := []\<rparr>"
    using handleNodeSelect2_empty [OF assms(4)] by (simp add: selectItems2_def)
  ultimately show ?thesis
    using select_pair [OF assms(1,4,2)] select2_pair [OF assms(4,2), of tbl] assms(3)
    by simp
qed

text \<open>C4, witness: AIOps and BMC have no entry in the example table.\<close>

theorem invalid_pair_rejected_witness:
  "canonical_keys example_summaries \<and> ''AIOps'' \<noteq> ''BMC'' \<and> pairing_entry example_summaries ''AIOps'' ''BMC'' = None
   \<and> selectItems example_summaries [''AIOps'', ''BMC''] initial
       = \<lparr>selectedItems = [''AIOps''], summary = [], activeTab = 0\<rparr>
   \<and> selectItems2 example_summaries [''AIOps'', ''BMC''] initial
       = \<lparr>selectedItems = [''AIOps''], summary = [], activeTab = 0\<rparr>"
proof -
  have h2: "''AIOps'' \<noteq> ''BMC''" by simp
  have h3: "pairing_entry example_summaries ''AIOps'' ''BMC'' = None" by (simp add: pairing_entry_def example_summaries_def)
  have h4: "selectedItems initial = []" by (simp add: initial_def)
  from invalid_pair_rejected [OF example_canonical h2 h3 h4] example_canonical h2 h3
  show ?thesis by (simp add: initial_def)
qed

text \<open>
  C5, as amended. In the first variant, over a table with canonical keys, \<open>availableTabs\<close>
  returns all categories for the empty selection; for a selection of one item \<open>a\<close>, the
  categories that have at least one child with a pairing-table entry together with \<open>a\<close>,
  in their original order; and no category for a selection of two items. The second
  variant has no such view: its tab list is all categories for every selection.
\<close>

theorem eligible_categories:
  assumes "canonical_keys tbl"
  shows "availableTabs tbl [] = Inr (MindMapData.children mindmapData)
       \<and> availableTabs tbl [a] =
           Inr (filter
             (\<lambda>category. case MindMapNode.children category of
                  Some cs \<Rightarrow> list_ex (\<lambda>x. pairing_entry tbl a x \<noteq> None) cs
                | None \<Rightarrow> False)
             (MindMapData.children mindmapData))
       \<and> availableTabs tbl [a, b] = Inr []
       \<and> renderedTabs2 selected = MindMapData.children mindmapData"
proof -
  have available: "item \<in> set (filter (\<lambda>item. item \<noteq> a)
        (concat (map split_comma
           (filter (\<lambda>key. list_ex (\<lambda>item. item = a) (split_comma key)) (Object_keys tbl)))))
      \<longleftrightarrow> pairing_entry tbl a item \<noteq> None" for item
    by (simp only: availableItems_iff partner_iff [OF assms])
  have one: "availableTabs tbl [a] =
       Inr (filter
         (\<lambda>category. case MindMapNode.children category of
              Some cs \<Rightarrow> list_ex (\<lambda>x. pairing_entry tbl a x \<noteq> None) cs
            | None \<Rightarrow> False)
         (MindMapData.children mindmapData))"
    unfolding availableTabs_def Let_def
    using categories_have_children
    by (simp del: set_filter set_concat add: available cong: option.case_cong)
  show ?thesis
    by (simp add: one renderedTabs2_def) (simp add: availableTabs_def)
qed

text \<open>
  C5, witness: on the example table, AIOps leaves only the category of ServiceNow in the
  first variant, and the second variant lists all categories.
\<close>

theorem eligible_categories_witness:
  "canonical_keys example_summaries
   \<and> availableTabs example_summaries [] = Inr (MindMapData.children mindmapData)
   \<and> availableTabs example_summaries [''AIOps''] = Inr [MindMapData.children mindmapData ! 2]
   \<and> availableTabs example_summaries [''AIOps'', ''ServiceNow''] = Inr []
   \<and> renderedTabs2 [''AIOps''] = MindMapData.children mindmapData"
proof -
  have "filter
          (\<lambda>category. case MindMapNode.children category of
               Some cs \<Rightarrow> list_ex (\<lambda>x. pairing_entry example_summaries ''AIOps'' x \<noteq> None) cs
             | None \<Rightarrow> False)
          (MindMapData.children mindmapData) = [MindMapData.children mindmapData ! 2]"
    by (simp add: mindmapData_def pairing_entry_def example_summaries_def)
  with eligible_categories [OF example_canonical, of "''AIOps''" "''ServiceNow''" "[''AIOps'']"]
    example_canonical
  show ?thesis by simp
qed

text \<open>
  C5, counterexample to the claim as stated: in the second variant, with two items
  selected the tab list is not empty but holds all seven categories, and with AIOps
  selected it holds the category Technologies, none of whose items has a pairing-table
  entry together with AIOps in the example table.
\<close>

theorem all_tabs_counterexample:
  "renderedTabs2 [''AIOps'', ''ServiceNow''] \<noteq> []
   \<and> map MindMapNode.name (renderedTabs2 [''AIOps'', ''ServiceNow''])
       = [''Technologies'', ''Market Trends'', ''Key Players'', ''Challenges'', ''Benefits'',
          ''Industry Verticals'', ''Future Outlook'']
   \<and> canonical_keys example_summaries
   \<and> renderedTabs2 [''AIOps''] ! 0
       = \<lparr>MindMapNode.name = ''Technologies'',
          MindMapNode.children = Some [''Cloud Management'', ''AIOps'', ''Automation'',
            ''Network Monitoring'', ''APM'', ''ITSM'', ''Infrastructure Monitoring'',
            ''Log Analytics'']\<rparr>
   \<and> \<not> list_ex (\<lambda>x. pairing_entry example_summaries ''AIOps'' x \<noteq> None)
         [''Cloud Management'', ''AIOps'', ''Automation'', ''Network Monitoring'', ''APM'',
          ''ITSM'', ''Infrastructure Monitoring'', ''Log Analytics'']"
  using example_canonical
  by (simp add: renderedTabs2_def mindmapData_def pairing_entry_def example_summaries_def)

text \<open>
  C6, the code at the failing input. In the initial state, with the drawing surface
  mounted and 1024 pixels wide, the first node of the array built for the category
  Technologies is the hub, which has children, in both variants; the click on it runs
  \<open>handleNodeSelect("Technologies")\<close> and the selection becomes \<open>["Technologies"]\<close>,
  in both variants.
\<close>

theorem hub_click_selects_category:
  "\<exists>ns. nodes example_summaries (MindMapData.children mindmapData ! 0) (selectedItems initial)
          (Some ()) 1024 = Inr (Some ns)
      \<and> nodes2 example_summaries (MindMapData.children mindmapData ! 0) (selectedItems initial)
          (Some ()) = Inr (Some ns)
      \<and> MindMapNode.name (ns ! 0) = ''Technologies''
      \<and> MindMapNode.children (ns ! 0) \<noteq> None
      \<and> click (handleNodeSelect example_summaries) (ns ! 0) initial
          = \<lparr>selectedItems = [''Technologies''], summary = [], activeTab = 0\<rparr>
      \<and> click (handleNodeSelect2 example_summaries) (ns ! 0) initial
          = \<lparr>selectedItems = [''Technologies''], summary = [], activeTab = 0\<rparr>"
  by (simp add: nodes_def nodes2_def availableNodes_def availableNodes2_def mindmapData_def
        initial_def click_def handleNodeSelect_def handleNodeSelect2_def)

text \<open>
  C7, as amended. Over a table whose keys are canonical and whose texts are all
  non-empty, the two variants of \<open>handleNodeSelect\<close> return the same state for every
  item and every state, and so do every two runs of them over the same sequence of items.
\<close>

theorem variants_agree:
  assumes "canonical_keys tbl" "nonempty_texts tbl"
  shows "handleNodeSelect tbl item st = handleNodeSelect2 tbl item st
       \<and> selectItems tbl items st = selectItems2 tbl items st"
proof -
  have "handleNodeSelect tbl = handleNodeSelect2 tbl"
    using handleNodeSelect_agree [OF assms] by (intro ext)
  then show ?thesis by (simp add: selectItems_def selectItems2_def)
qed

text \<open>C7, witness: the example table.\<close>

theorem variants_agree_witness:
  "canonical_keys example_summaries \<and> nonempty_texts example_summaries
   \<and> selectItems example_summaries [''AIOps'', ''ServiceNow''] initial
       = selectItems2 example_summaries [''AIOps'', ''ServiceNow''] initial
   \<and> selectedItems (selectItems2 example_summaries [''AIOps'', ''ServiceNow''] initial)
       = [''AIOps'', ''ServiceNow'']"
proof -
  have h2: "nonempty_texts example_summaries" by (simp add: nonempty_texts_def example_summaries_def)
  have "selectedItems (selectItems2 example_summaries [''AIOps'', ''ServiceNow''] initial)
       = [''AIOps'', ''ServiceNow'']"
    by (simp add: selectItems2_def handleNodeSelect2_def example_summaries_def initial_def)
  with variants_agree [OF example_canonical h2] example_canonical h2 show ?thesis by simp
qed

text \<open>
  C7, counterexample to the claim as stated: a table with one canonical key and an empty
  text, on which the first variant takes the pair and the second variant rejects it.
\<close>

theorem empty_text_counterexample:
  "canonical_keys blank_text_summaries
   \<and> selectedItems (selectItems blank_text_summaries [''AIOps'', ''ServiceNow''] initial) = [''AIOps'', ''ServiceNow'']
   \<and> selectedItems (selectItems2 blank_text_summaries [''AIOps'', ''ServiceNow''] initial) = [''AIOps'']"
  using blank_text_canonical
  by (simp add: selectItems_def selectItems2_def handleNodeSelect_def
        handleNodeSelect2_def blank_text_summaries_def Object_keys_def initial_def)

text \<open>
  C8, as amended. Over a table with canonical keys, for every one-item selection \<open>[a]\<close>
  and every node \<open>data\<close>, both variants of \<open>availableNodes\<close> return the same list, and
  each member \<open>x\<close> of it has an entry together with \<open>a\<close>; clicking \<open>x\<close> is accepted by
  the first variant of \<open>handleNodeSelect\<close>, and by the second variant when the text of
  the entry is not empty: the selection becomes \<open>[a, x]\<close> and the summary that text.
\<close>

theorem eligible_items_accepted:
  assumes "canonical_keys tbl" "selectedItems st = [a]"
    and "availableNodes2 tbl data [a] = Inr (Some xs)" "x \<in> set xs"
  shows "availableNodes tbl data [a] = Inr (Some xs)
       \<and> (\<exists>found. pairing_entry tbl a x = Some found
            \<and> handleNodeSelect tbl x st = st\<lparr>selectedItems := [a, x], summary := found\<rparr>
            \<and> (found \<noteq> [] \<longrightarrow>
                 handleNodeSelect2 tbl x st = st\<lparr>selectedItems := [a, x], summary := found\<rparr>))"
proof -
  from assms(3) have av: "availableNodes tbl data [a] = Inr (Some xs)"
    by (simp add: availableNodes2_eq)
  from availableNodes_member [OF av assms(4)]
  have xa: "x \<noteq> a" and "pairing_entry tbl a x \<noteq> None"
    using partner_iff [OF assms(1), of x a] by blast+
  then obtain found where found: "pairing_entry tbl a x = Some found" by blast
  have "handleNodeSelect tbl x st = st\<lparr>selectedItems := [a, x], summary := found\<rparr>"
    by (simp add: handleNodeSelect_one [OF assms(1,2) xa] found)
  moreover have "found \<noteq> [] \<longrightarrow>
      handleNodeSelect2 tbl x st = st\<lparr>selectedItems := [a, x], summary := found\<rparr>"
    by (simp add: handleNodeSelect2_one [OF assms(2) xa] found)
  ultimately show ?thesis using av found by blast
qed

text \<open>C8, witness: ServiceNow is available under Key Players once AIOps is selected.\<close>

theorem eligible_items_accepted_witness:
  "canonical_keys example_summaries
   \<and> availableNodes2 example_summaries (MindMapData.children mindmapData ! 2) [''AIOps''] = Inr (Some [''ServiceNow''])
   \<and> availableNodes example_summaries (MindMapData.children mindmapData ! 2) [''AIOps''] = Inr (Some [''ServiceNow''])
   \<and> handleNodeSelect example_summaries ''ServiceNow'' \<lparr>selectedItems = [''AIOps''], summary = [], activeTab = 0\<rparr>
       = \<lparr>selectedItems = [''AIOps'', ''ServiceNow''], summary = ''text'', activeTab = 0\<rparr>
   \<and> handleNodeSelect2 example_summaries ''ServiceNow'' \<lparr>selectedItems = [''AIOps''], summary = [], activeTab = 0\<rparr>
       = \<lparr>selectedItems = [''AIOps'', ''ServiceNow''], summary = ''text'', activeTab = 0\<rparr>"
proof -
  let ?st = "\<lparr>selectedItems = [''AIOps''], summary = [], activeTab = 0\<rparr>"
  have h2: "selectedItems ?st = [''AIOps'']" by simp
  have h3: "availableNodes2 example_summaries (MindMapData.children mindmapData ! 2) [''AIOps'']
            = Inr (Some [''ServiceNow''])"
    by (simp add: availableNodes2_def mindmapData_def example_summaries_def Object_keys_def)
  have h4: "''ServiceNow'' \<in> set [''ServiceNow'']" by simp
  from eligible_items_accepted [OF example_canonical h2 h3 h4] example_entry example_canonical h3
  show ?thesis by simp
qed

text \<open>
  C8, counterexample to the claim as stated: over a table with one canonical key and an
  empty text, ServiceNow is available once AIOps is selected, and the second variant of
  \<open>handleNodeSelect\<close> rejects the click on it.
\<close>

theorem eligible_item_rejected_counterexample:
  "canonical_keys blank_text_summaries
   \<and> availableNodes2 blank_text_summaries (MindMapData.children mindmapData ! 2) [''AIOps''] = Inr (Some [''ServiceNow''])
   \<and> handleNodeSelect2 blank_text_summaries ''ServiceNow'' \<lparr>selectedItems = [''AIOps''], summary = [], activeTab = 0\<rparr>
       = \<lparr>selectedItems = [''AIOps''], summary = [], activeTab = 0\<rparr>"
  using blank_text_canonical
  by (simp add: availableNodes2_def handleNodeSelect2_def mindmapData_def blank_text_summaries_def Object_keys_def)

text \<open>
  C9. For every item \<open>a\<close>, every table and every state with the empty selection, in
  both variants: \<open>selectItem(a)\<close> selects \<open>a\<close>, giving the selection \<open>[a]\<close> and the
  empty summary, and \<open>selectItem(a)\<close> again deselects it, giving the empty selection and
  the empty summary; nothing else of the state changes.
\<close>

theorem select_twice_deselects:
  "selectItems tbl [a] (st\<lparr>selectedItems := []\<rparr>) = st\<lparr>selectedItems := [a], summary := []\<rparr>
   \<and> selectItems tbl [a, a] (st\<lparr>selectedItems := []\<rparr>) = st\<lparr>selectedItems := [], summary := []\<rparr>
   \<and> handleNodeSelect tbl a (st\<lparr>selectedItems := [a], summary := []\<rparr>)
       = st\<lparr>selectedItems := [], summary := []\<rparr>
   \<and> selectItems2 tbl [a] (st\<lparr>selectedItems := []\<rparr>) = st\<lparr>selectedItems := [a], summary := []\<rparr>
   \<and> selectItems2 tbl [a, a] (st\<lparr>selectedItems := []\<rparr>) = st\<lparr>selectedItems := [], summary := []\<rparr>
   \<and> handleNodeSelect2 tbl a (st\<lparr>selectedItems := [a], summary := []\<rparr>)
       = st\<lparr>selectedItems := [], summary := []\<rparr>"
  by (simp add: selectItems_def selectItems2_def handleNodeSelect_def handleNodeSelect2_def)

text \<open>
  C10. Over a table with canonical keys, in every state reached from the initial state by
  a sequence of \<open>selectItem\<close> and reset actions, a non-empty summary implies that the
  selection has exactly two entries and that the summary is the pairing-table entry of
  these two items. This holds in both variants.
\<close>

theorem summary_invariant:
  assumes "canonical_keys tbl"
  shows "(summary (run tbl acts) \<noteq> [] \<longrightarrow>
            (\<exists>a b. selectedItems (run tbl acts) = [a, b]
                  \<and> pairing_entry tbl a b = Some (summary (run tbl acts))))
       \<and> (summary (run2 tbl acts) \<noteq> [] \<longrightarrow>
            (\<exists>a b. selectedItems (run2 tbl acts) = [a, b]
                  \<and> pairing_entry tbl a b = Some (summary (run2 tbl acts))))"
  using run_invariant [OF assms, of acts] run2_invariant [of tbl acts]
  by (blast dest: summary_consistentD)

text \<open>C10, witness: a run with a reset in the middle that ends on a selected pair.\<close>

theorem summary_invariant_witness:
  "canonical_keys example_summaries
   \<and> summary (run example_summaries [SelectItem ''BMC'', Reset, SelectItem ''AIOps'', SelectItem ''ServiceNow'']) \<noteq> []
   \<and> (\<exists>a b. selectedItems (run example_summaries [SelectItem ''BMC'', Reset, SelectItem ''AIOps'', SelectItem ''ServiceNow'']) = [a, b]
         \<and> pairing_entry example_summaries a b
            = Some (summary (run example_summaries [SelectItem ''BMC'', Reset, SelectItem ''AIOps'', SelectItem ''ServiceNow''])))
   \<and> summary (run2 example_summaries [SelectItem ''BMC'', Reset, SelectItem ''AIOps'', SelectItem ''ServiceNow'']) \<noteq> []
   \<and> (\<exists>a b. selectedItems (run2 example_summaries [SelectItem ''BMC'', Reset, SelectItem ''AIOps'', SelectItem ''ServiceNow'']) = [a, b]
         \<and> pairing_entry example_summaries a b
            = Some (summary (run2 example_summaries [SelectItem ''BMC'', Reset, SelectItem ''AIOps'', SelectItem ''ServiceNow''])))"
proof -
  let ?acts = "[SelectItem ''BMC'', Reset, SelectItem ''AIOps'', SelectItem ''ServiceNow'']"
  have s1: "summary (run example_summaries ?acts) \<noteq> []"
    by (simp add: run_def handleNodeSelect_def handleReset_def example_summaries_def Object_keys_def initial_def)
  have s2: "summary (run2 example_summaries ?acts) \<noteq> []"
    by (simp add: run2_def handleNodeSelect2_def handleReset_def example_summaries_def initial_def)
  from summary_invariant [OF example_canonical, of ?acts] s1 s2 example_canonical
  show ?thesis by blast
qed

end
